theory Spec2Isabelle
  imports Main "HOL-Library.Sublist" "HOL-Library.Code_Target_Numeral"
begin

section \<open>The debuggee session server: a model of src/index.ts\<close>

text \<open>
  The server keeps one module-level table \<open>sessions\<close> and offers one tool,
  \<open>debug/start_session\<close>. The tool spawns a process with the inspector switched on,
  waits for the inspector's WebSocket address on the child's standard error, connects a
  protocol client to it, enables two domains, builds a Session object, subscribes two
  notification handlers and stores the object in the table.

  A JavaScript string is a \<open>string\<close> here, with one \<open>char\<close> for each code unit; the
  model covers the code units below 256, which holds all the texts of the program and the
  inspector's output. Values that are thrown or passed to \<open>reject\<close> are of type \<open>thrown\<close>.
\<close>

subsection \<open>Thrown values and number rendering\<close>

text \<open>
  The \<open>catch\<close> clause reads \<open>error instanceof Error ? error.message : String(error)\<close>:
  a thrown value is either an \<open>Error\<close> object with its message, or some other value, kept
  here as the text \<open>String\<close> gives for it.
\<close>

datatype thrown = JsError string | NonError string

fun error_text :: "thrown \<Rightarrow> string" where
  "error_text (JsError m) = m"
| "error_text (NonError s) = s"

definition digit :: "nat \<Rightarrow> char" where
  "digit d = ''0123456789'' ! d"

text \<open>Decimal rendering of a non-negative integer, as a template literal gives it.\<close>

fun show_nat :: "nat \<Rightarrow> string" where
  "show_nat n = (if n < 10 then [digit n] else show_nat (n div 10) @ [digit (n mod 10)])"

declare show_nat.simps [simp del]

definition show_int :: "int \<Rightarrow> string" where
  "show_int i = (if i < 0 then CHR ''-'' # show_nat (nat (- i)) else show_nat (nat i))"

subsection \<open>Endpoint discovery (lines 75 to 102)\<close>

text \<open>
  The class \<open>\s\<close> of a JavaScript regular expression, on code units below 256: TAB, LF,
  VT, FF, CR, SPACE and the no-break space.
\<close>

definition is_space :: "char \<Rightarrow> bool" where
  "is_space c = (c \<in> set [CHR 0x09, CHR 0x0A, CHR 0x0B, CHR 0x0C, CHR 0x0D, CHR 0x20, CHR 0xA0])"

text \<open>
  \<open>stderr.match(/ws:\/\/[^\s]+/)\<close>: the leftmost position where \<open>ws://\<close> is followed by at
  least one character that is not white space; the match runs on greedily to the next white
  space or to the end of the buffer. \<open>None\<close> is the \<open>null\<close> of a failed match, \<open>Some m\<close>
  carries \<open>match[0]\<close>.
\<close>

fun match_ws :: "string \<Rightarrow> string option" where
  "match_ws [] = None"
| "match_ws (c # cs) =
     (if take 5 (c # cs) = ''ws://'' \<and> takeWhile (\<lambda>x. \<not> is_space x) (drop 5 (c # cs)) \<noteq> []
      then Some (''ws://'' @ takeWhile (\<lambda>x. \<not> is_space x) (drop 5 (c # cs)))
      else match_ws cs)"

text \<open>
  What can happen while the promise is awaited: a chunk arrives on the child's standard
  error, the child emits \<open>error\<close>, the child emits \<open>exit\<close> with a code or with \<open>null\<close>
  (ended by a signal), or the 10 second timer fires.
\<close>

datatype event =
    StderrData string
  | ChildError thrown
  | ChildExit "nat option"
  | TimerFired

datatype outcome = Pending | Resolved string | Rejected thrown

text \<open>
  The state the executor of the promise sets up: the \<open>stderr\<close> buffer, the timer (armed
  until cleared or fired) and the promise itself. The three listeners are attached once and
  the source never detaches them, so their handlers run at every event of their kind.
\<close>

record discovery =
  stderr :: string
  timeout_armed :: bool
  settled :: outcome

definition discovery_start :: discovery where
  "discovery_start = \<lparr>stderr = [], timeout_armed = True, settled = Pending\<rparr>"

text \<open>A promise settles once: \<open>resolve\<close> and \<open>reject\<close> on a settled promise do nothing.\<close>

definition resolve :: "string \<Rightarrow> discovery \<Rightarrow> discovery" where
  "resolve v s = (if settled s = Pending then s\<lparr>settled := Resolved v\<rparr> else s)"

definition reject :: "thrown \<Rightarrow> discovery \<Rightarrow> discovery" where
  "reject e s = (if settled s = Pending then s\<lparr>settled := Rejected e\<rparr> else s)"

definition clearTimeout :: "discovery \<Rightarrow> discovery" where
  "clearTimeout s = s\<lparr>timeout_armed := False\<rparr>"

definition timeout_error :: thrown where
  "timeout_error = JsError ''Timeout waiting for inspector WebSocket URL''"

definition exit_error :: "nat \<Rightarrow> thrown" where
  "exit_error code =
     JsError (''Process exited with code '' @ show_nat code @ '' before inspector URL was found'')"

text \<open>The four handlers. A timer that was cleared, or has fired, does not fire.\<close>

definition on_data :: "string \<Rightarrow> discovery \<Rightarrow> discovery" where
  "on_data chunk s =
     (let s1 = s\<lparr>stderr := stderr s @ chunk\<rparr>
      in case match_ws (stderr s1) of
           Some m \<Rightarrow> resolve m (clearTimeout s1)
         | None \<Rightarrow> s1)"

definition on_error :: "thrown \<Rightarrow> discovery \<Rightarrow> discovery" where
  "on_error e s = reject e (clearTimeout s)"

definition on_exit :: "nat option \<Rightarrow> discovery \<Rightarrow> discovery" where
  "on_exit code s =
     (case code of
        Some c \<Rightarrow> reject (exit_error c) (clearTimeout s)
      | None \<Rightarrow> s)"

definition on_timeout :: "discovery \<Rightarrow> discovery" where
  "on_timeout s =
     (if timeout_armed s then reject timeout_error (s\<lparr>timeout_armed := False\<rparr>) else s)"

fun step :: "discovery \<Rightarrow> event \<Rightarrow> discovery" where
  "step s (StderrData chunk) = on_data chunk s"
| "step s (ChildError e) = on_error e s"
| "step s (ChildExit code) = on_exit code s"
| "step s TimerFired = on_timeout s"

definition run :: "discovery \<Rightarrow> event list \<Rightarrow> discovery" where
  "run s evs = foldl step s evs"

text \<open>
  The value the \<open>await\<close> continues with. \<open>evs\<close> are the events delivered before the timer's
  turn; then the timer fires, if it is still armed. \<open>None\<close> stands for a promise that
  never settles.
\<close>

definition discover :: "event list \<Rightarrow> (thrown + string) option" where
  "discover evs =
     (case settled (run discovery_start (evs @ [TimerFired])) of
        Pending \<Rightarrow> None
      | Resolved url \<Rightarrow> Some (Inr url)
      | Rejected e \<Rightarrow> Some (Inl e))"

subsection \<open>The tool's input and the launch command (lines 28 to 73)\<close>

text \<open>
  The parameters are those the schema hands to the handler, defaults filled in. The
  \<open>switch\<close> on the runner has the cases \<open>tsx\<close>, \<open>ts-node\<close> and the default.
\<close>

datatype runner = Node | Tsx | TsNode

record start_params =
  entry :: string
  args :: "string list"
  cwd :: "string option"
  inspectBrk :: bool
  runner :: runner

definition inspect_flag :: "bool \<Rightarrow> string" where
  "inspect_flag brk = (if brk then ''--inspect-brk'' else ''--inspect'')"

definition launch_command :: "start_params \<Rightarrow> string \<times> string list" where
  "launch_command p =
     (case runner p of
        Tsx \<Rightarrow> (''tsx'', [inspect_flag (inspectBrk p), entry p] @ args p)
      | TsNode \<Rightarrow>
          (''node'', [inspect_flag (inspectBrk p), ''-r'', ''ts-node/register'', entry p] @ args p)
      | Node \<Rightarrow> (''node'', [inspect_flag (inspectBrk p), entry p] @ args p))"

text \<open>\<open>cwd || process.cwd()\<close>: an absent or empty \<open>cwd\<close> gives the server's directory.\<close>

definition launch_cwd :: "string option \<Rightarrow> string \<Rightarrow> string" where
  "launch_cwd d server_cwd =
     (case d of None \<Rightarrow> server_cwd | Some x \<Rightarrow> if x = [] then server_cwd else x)"

subsection \<open>Objects and the module state\<close>

text \<open>
  Objects live in a store and are named by references: the Session objects, the \<open>Map\<close>
  objects that hold breakpoints, the protocol clients and the child processes each have a
  list, and a reference is an index into it. An allocation appends, so the new reference
  is the length of the list before.
\<close>

type_synonym ref = nat

record breakpoint =
  bp_id :: string
  bp_file :: string
  bp_line :: int
  bp_column :: "int option"

record child =
  command :: string
  arguments :: "string list"
  directory :: string
  pid :: "nat option"

record 'ev session =
  session_id :: string
  wsUrl :: string
  client :: ref
  process :: "ref option"
  breakpoints :: ref
  lastPaused :: "'ev option"

text \<open>
  A client holds its connection and the listeners on \<open>Debugger.paused\<close> and
  \<open>Debugger.resumed\<close>. Each listener of the source is a closure over one Session
  object; the lists keep the reference of that object. \<open>close_called\<close> records whether
  the program has called \<open>close()\<close> on the client; the source has no such call. Whether
  the socket itself is still open also depends on the other end, and is not part of the
  state.
\<close>

record client_obj =
  target :: string
  close_called :: bool
  paused_listeners :: "ref list"
  resumed_listeners :: "ref list"

record 'ev world =
  sessions :: "string \<rightharpoonup> ref"
  session_objs :: "'ev session list"
  map_objs :: "(string \<rightharpoonup> breakpoint) list"
  client_objs :: "client_obj list"
  child_objs :: "child list"

definition empty_world :: "'ev world" where
  "empty_world =
     \<lparr>sessions = Map.empty, session_objs = [], map_objs = [], client_objs = [], child_objs = []\<rparr>"

definition spawn :: "child \<Rightarrow> 'ev world \<Rightarrow> ref \<times> 'ev world" where
  "spawn ch w = (length (child_objs w), w\<lparr>child_objs := child_objs w @ [ch]\<rparr>)"

definition CDP :: "string \<Rightarrow> 'ev world \<Rightarrow> ref \<times> 'ev world" where
  "CDP url w =
     (length (client_objs w),
      w\<lparr>client_objs := client_objs w @
           [\<lparr>target = url, close_called = False, paused_listeners = [],
             resumed_listeners = []\<rparr>]\<rparr>)"

definition new_Map :: "'ev world \<Rightarrow> ref \<times> 'ev world" where
  "new_Map w = (length (map_objs w), w\<lparr>map_objs := map_objs w @ [Map.empty]\<rparr>)"

definition new_session :: "'ev session \<Rightarrow> 'ev world \<Rightarrow> ref \<times> 'ev world" where
  "new_session s w = (length (session_objs w), w\<lparr>session_objs := session_objs w @ [s]\<rparr>)"

text \<open>\<open>sessions.set(key, value)\<close> of a \<open>Map\<close>: it stores, whether the key is there or not.\<close>

definition sessions_set :: "string \<Rightarrow> ref \<Rightarrow> 'ev world \<Rightarrow> 'ev world" where
  "sessions_set k r w = w\<lparr>sessions := (sessions w)(k \<mapsto> r)\<rparr>"

definition on_paused :: "ref \<Rightarrow> ref \<Rightarrow> 'ev world \<Rightarrow> 'ev world" where
  "on_paused c s w =
     w\<lparr>client_objs := (client_objs w)
          [c := (client_objs w ! c)\<lparr>paused_listeners := paused_listeners (client_objs w ! c) @ [s]\<rparr>]\<rparr>"

definition on_resumed :: "ref \<Rightarrow> ref \<Rightarrow> 'ev world \<Rightarrow> 'ev world" where
  "on_resumed c s w =
     w\<lparr>client_objs := (client_objs w)
          [c := (client_objs w ! c)\<lparr>resumed_listeners := resumed_listeners (client_objs w ! c) @ [s]\<rparr>]\<rparr>"

subsection \<open>Session identifiers (lines 36 to 38)\<close>

text \<open>\<open>s.substring(a, b)\<close>: the arguments are swapped when \<open>a > b\<close> and clamped to the length.\<close>

definition substring :: "nat \<Rightarrow> nat \<Rightarrow> string \<Rightarrow> string" where
  "substring a b s = take (max a b - min a b) (drop (min a b) s)"

text \<open>
  The identifier is built from \<open>process.pid\<close>, \<open>Date.now()\<close> and the text of
  \<open>Math.random().toString(36)\<close>. The three are inputs here: the clock and the random
  number generator are outside the program.
\<close>

definition generateSessionId :: "nat \<Rightarrow> int \<Rightarrow> string \<Rightarrow> string" where
  "generateSessionId own_pid now random_text =
     show_nat own_pid @ ''-'' @ show_int now @ ''-'' @ substring 2 9 random_text"

subsection \<open>The handler of debug/start_session (lines 46 to 155)\<close>

text \<open>
  What the outside does during one call: whether \<open>spawn\<close> throws or returns a child (with a
  pid, or with none when the launch failed), the events on the child while the address is
  awaited, whether the connection and the two \<open>enable\<close> calls succeed, and the values of
  \<open>process.cwd()\<close>, \<open>process.pid\<close>, \<open>Date.now()\<close> and \<open>Math.random().toString(36)\<close>.
\<close>

record call_env =
  server_cwd :: string
  spawn_result :: "thrown + nat option"
  child_events :: "event list"
  connect_result :: "thrown option"
  debugger_enable :: "thrown option"
  runtime_enable :: "thrown option"
  server_pid :: nat
  date_now :: int
  random36 :: string

record payload =
  sessionId :: string
  out_wsUrl :: string
  out_pid :: "nat option"
  out_runner :: runner
  out_entry :: string

text \<open>
  The \<open>try\<close> block, in three stretches: spawning and awaiting the address (lines 48 to
  102), connecting and enabling the two domains (lines 104 to 108), and the synchronous
  rest that builds and stores the Session (lines 110 to 142). \<open>Inl e\<close> is the value that
  reaches the \<open>catch\<close> clause, \<open>Inr\<close> the object handed to \<open>JSON.stringify\<close>; \<open>None\<close> is an
  \<open>await\<close> that never continues.
\<close>

definition connect_and_enable ::
    "call_env \<Rightarrow> string \<Rightarrow> 'ev world \<Rightarrow> (thrown + ref) \<times> 'ev world" where
  "connect_and_enable env url w =
     (case connect_result env of
        Some e \<Rightarrow> (Inl e, w)
      | None \<Rightarrow>
          (case CDP url w of
             (c, w1) \<Rightarrow>
               (case debugger_enable env of
                  Some e \<Rightarrow> (Inl e, w1)
                | None \<Rightarrow>
                    (case runtime_enable env of
                       Some e \<Rightarrow> (Inl e, w1)
                     | None \<Rightarrow> (Inr c, w1)))))"

definition register_session ::
    "call_env \<Rightarrow> start_params \<Rightarrow> string \<Rightarrow> ref \<Rightarrow> ref \<Rightarrow> 'ev world \<Rightarrow> payload \<times> 'ev world" where
  "register_session env p url ch c w =
     (let sid = generateSessionId (server_pid env) (date_now env) (random36 env);
          (m, w1) = new_Map w;
          (s, w2) = new_session
                      \<lparr>session_id = sid, wsUrl = url, client = c, process = Some ch,
                       breakpoints = m, lastPaused = None\<rparr> w1;
          w3 = on_paused c s w2;
          w4 = on_resumed c s w3;
          w5 = sessions_set sid s w4
      in (\<lparr>sessionId = sid, out_wsUrl = url, out_pid = pid (child_objs w5 ! ch),
           out_runner = runner p, out_entry = entry p\<rparr>, w5))"

definition start_session_try ::
    "call_env \<Rightarrow> start_params \<Rightarrow> 'ev world \<Rightarrow> ((thrown + payload) \<times> 'ev world) option" where
  "start_session_try env p w =
     (case spawn_result env of
        Inl e \<Rightarrow> Some (Inl e, w)
      | Inr child_pid \<Rightarrow>
          (case spawn \<lparr>command = fst (launch_command p), arguments = snd (launch_command p),
                        directory = launch_cwd (cwd p) (server_cwd env), pid = child_pid\<rparr> w of
             (ch, w1) \<Rightarrow>
               (case discover (child_events env) of
                  None \<Rightarrow> None
                | Some (Inl e) \<Rightarrow> Some (Inl e, w1)
                | Some (Inr url) \<Rightarrow>
                    (case connect_and_enable env url w1 of
                       (Inl e, w2) \<Rightarrow> Some (Inl e, w2)
                     | (Inr c, w2) \<Rightarrow>
                         (case register_session env p url ch c w2 of
                            (pl, w3) \<Rightarrow> Some (Inr pl, w3))))))"

text \<open>
  The result of the tool. On success \<open>isError\<close> is absent (\<open>False\<close> here) and the one
  content item is the text of the payload (kept as the payload, not serialised); the
  \<open>catch\<close> clause returns one text item with the flag set.
\<close>

datatype content_item = Text string | JsonText payload

record tool_result =
  isError :: bool
  content :: "content_item list"

definition ok_result :: "payload \<Rightarrow> tool_result" where
  "ok_result pl = \<lparr>isError = False, content = [JsonText pl]\<rparr>"

definition error_result :: "thrown \<Rightarrow> tool_result" where
  "error_result e =
     \<lparr>isError = True, content = [Text (''Failed to start debug session: '' @ error_text e)]\<rparr>"

definition start_session ::
    "call_env \<Rightarrow> start_params \<Rightarrow> 'ev world \<Rightarrow> (tool_result \<times> 'ev world) option" where
  "start_session env p w =
     (case start_session_try env p w of
        None \<Rightarrow> None
      | Some (Inr pl, w') \<Rightarrow> Some (ok_result pl, w')
      | Some (Inl e, w') \<Rightarrow> Some (error_result e, w'))"

subsection \<open>Notifications (lines 119 to 125)\<close>

text \<open>
  \<open>Debugger.paused\<close> comes with its parameter object, a value of type \<open>'ev\<close>;
  \<open>Debugger.resumed\<close> has none that the handler reads.
\<close>

datatype 'ev notification = Paused 'ev | Resumed

text \<open>The bodies of the two closures, on the Session object they close over.\<close>

definition paused_handler :: "ref \<Rightarrow> 'ev \<Rightarrow> 'ev world \<Rightarrow> 'ev world" where
  "paused_handler s ev w =
     w\<lparr>session_objs := (session_objs w)[s := (session_objs w ! s)\<lparr>lastPaused := Some ev\<rparr>]\<rparr>"

definition resumed_handler :: "ref \<Rightarrow> 'ev world \<Rightarrow> 'ev world" where
  "resumed_handler s w =
     w\<lparr>session_objs := (session_objs w)[s := (session_objs w ! s)\<lparr>lastPaused := None\<rparr>]\<rparr>"

text \<open>The client emits a notification: its listeners for that name run in order.\<close>

definition emit :: "ref \<Rightarrow> 'ev notification \<Rightarrow> 'ev world \<Rightarrow> 'ev world" where
  "emit c n w =
     (if c < length (client_objs w)
      then (case n of
              Paused ev \<Rightarrow>
                foldl (\<lambda>w' s. paused_handler s ev w') w (paused_listeners (client_objs w ! c))
            | Resumed \<Rightarrow>
                foldl (\<lambda>w' s. resumed_handler s w') w (resumed_listeners (client_objs w ! c)))
      else w)"

subsection \<open>Runs of the server\<close>

text \<open>
  The handler touches the module state only after its last \<open>await\<close>, in one synchronous
  stretch that builds the Session, subscribes the two listeners and stores it; so calls
  are taken one after the other. Between calls the clients deliver notifications. A
  notification that a client emits before its listeners are subscribed reaches no listener
  and is not part of a run.
\<close>

datatype 'ev action = Start call_env start_params | Notify ref "'ev notification"

fun perform :: "'ev world \<Rightarrow> 'ev action \<Rightarrow> 'ev world" where
  "perform w (Start env p) = (case start_session env p w of Some (r, w') \<Rightarrow> w' | None \<Rightarrow> w)"
| "perform w (Notify c n) = emit c n w"

definition perform_all :: "'ev world \<Rightarrow> 'ev action list \<Rightarrow> 'ev world" where
  "perform_all w acts = foldl perform w acts"

text \<open>The notifications that one client delivers during a run, in order.\<close>

fun notifications_of :: "ref \<Rightarrow> 'ev action list \<Rightarrow> 'ev notification list" where
  "notifications_of c [] = []"
| "notifications_of c (Start env p # acts) = notifications_of c acts"
| "notifications_of c (Notify c' n # acts) =
     (if c' = c then n # notifications_of c acts else notifications_of c acts)"

text \<open>The results of a sequence of calls, and the identifiers they report.\<close>

fun start_sessions :: "'ev world \<Rightarrow> (call_env \<times> start_params) list \<Rightarrow> tool_result list" where
  "start_sessions w [] = []"
| "start_sessions w (call # calls) =
     (case start_session (fst call) (snd call) w of
        None \<Rightarrow> []
      | Some (r, w') \<Rightarrow> r # start_sessions w' calls)"

fun item_ids :: "content_item \<Rightarrow> string list" where
  "item_ids (JsonText pl) = [sessionId pl]"
| "item_ids (Text t) = []"

definition result_ids :: "tool_result list \<Rightarrow> string list" where
  "result_ids rs = concat (map (\<lambda>r. concat (map item_ids (content r))) rs)"

subsection \<open>Auxiliary notions for the proofs\<close>

text \<open>
  The error of the first stage that fails, in the order in which the handler runs the
  stages: spawn, endpoint discovery, connection, \<open>Debugger.enable\<close>, \<open>Runtime.enable\<close>;
  \<open>None\<close> when every stage succeeds.
\<close>

definition first_failure :: "call_env \<Rightarrow> thrown option" where
  "first_failure env =
     (case spawn_result env of
        Inl e \<Rightarrow> Some e
      | Inr cp \<Rightarrow>
          (case discover (child_events env) of
             None \<Rightarrow> None
           | Some (Inl e) \<Rightarrow> Some e
           | Some (Inr url) \<Rightarrow>
               (case connect_result env of
                  Some e \<Rightarrow> Some e
                | None \<Rightarrow>
                    (case debugger_enable env of
                       Some e \<Rightarrow> Some e
                     | None \<Rightarrow> runtime_enable env))))"

text \<open>
  References in the store point at objects that exist: a listener's Session object, a
  Session's breakpoint map.
\<close>

definition wf_world :: "'ev world \<Rightarrow> bool" where
  "wf_world w =
     ((\<forall>c \<in> set (client_objs w).
         (\<forall>s \<in> set (paused_listeners c). s < length (session_objs w)) \<and>
         (\<forall>s \<in> set (resumed_listeners c). s < length (session_objs w))) \<and>
      (\<forall>s \<in> set (session_objs w).
         breakpoints s < length (map_objs w) \<and> client s < length (client_objs w)) \<and>
      (\<forall>r \<in> ran (sessions w). r < length (session_objs w)))"

text \<open>Reading a decimal numeral back.\<close>

definition digit_value :: "char \<Rightarrow> nat" where
  "digit_value c = of_char c - 48"

definition read_nat :: "string \<Rightarrow> nat" where
  "read_nat s = foldl (\<lambda>a c. 10 * a + digit_value c) 0 s"

text \<open>The snapshot a notification leaves, and the listeners of a client that it reaches.\<close>

definition snapshot_of :: "'ev notification \<Rightarrow> 'ev option" where
  "snapshot_of n = (case n of Paused ev \<Rightarrow> Some ev | Resumed \<Rightarrow> None)"

definition listeners_for :: "'ev notification \<Rightarrow> client_obj \<Rightarrow> ref list" where
  "listeners_for n c =
     (case n of Paused ev \<Rightarrow> paused_listeners c | Resumed \<Rightarrow> resumed_listeners c)"

text \<open>
  Session object \<open>s\<close> is listened to by client \<open>c\<close> alone: \<open>c\<close> has one listener for each
  notification, both on \<open>s\<close>, and no other client has a listener on \<open>s\<close>.
\<close>

definition owned_by :: "'ev world \<Rightarrow> ref \<Rightarrow> ref \<Rightarrow> bool" where
  "owned_by w s c =
     (s < length (session_objs w) \<and> c < length (client_objs w) \<and>
      paused_listeners (client_objs w ! c) = [s] \<and>
      resumed_listeners (client_objs w ! c) = [s] \<and>
      (\<forall>c' < length (client_objs w). c' \<noteq> c \<longrightarrow>
         s \<notin> set (paused_listeners (client_objs w ! c')) \<and>
         s \<notin> set (resumed_listeners (client_objs w ! c'))))"

subsection \<open>A sample call\<close>

text \<open>
  A call in which every stage succeeds: the child prints the inspector's line in one chunk,
  the connection and both \<open>enable\<close> calls go through.
\<close>

definition sample_env :: call_env where
  "sample_env =
     \<lparr>server_cwd = ''/srv'', spawn_result = Inr (Some 4711),
      child_events = [StderrData ''Debugger listening on ws://127.0.0.1:9229/abc\<newline>''],
      connect_result = None, debugger_enable = None, runtime_enable = None,
      server_pid = 42, date_now = 1700000000000, random36 = ''0.k3j9x2abcd''\<rparr>"

definition sample_params :: start_params where
  "sample_params =
     \<lparr>entry = ''script.js'', args = [], cwd = None, inspectBrk = True, runner = Node\<rparr>"

text \<open>The payload of the sample call and the module state after it, from the empty state.\<close>

definition sample_payload :: payload where
  "sample_payload =
     \<lparr>sessionId = ''42-1700000000000-k3j9x2a'', out_wsUrl = ''ws://127.0.0.1:9229/abc'',
      out_pid = Some 4711, out_runner = Node, out_entry = ''script.js''\<rparr>"

definition sample_world :: "string world" where
  "sample_world =
     \<lparr>sessions = [''42-1700000000000-k3j9x2a'' \<mapsto> 0],
      session_objs =
        [\<lparr>session_id = ''42-1700000000000-k3j9x2a'', wsUrl = ''ws://127.0.0.1:9229/abc'',
          client = 0, process = Some 0, breakpoints = 0, lastPaused = None\<rparr>],
      map_objs = [Map.empty],
      client_objs =
        [\<lparr>target = ''ws://127.0.0.1:9229/abc'', close_called = False, paused_listeners = [0],
          resumed_listeners = [0]\<rparr>],
      child_objs =
        [\<lparr>command = ''node'', arguments = [''--inspect-brk'', ''script.js''],
          directory = ''/srv'', pid = Some 4711\<rparr>]\<rparr>"

text \<open>
  A second call, with another child and another random text, and the module state after
  both calls.
\<close>

definition second_env :: call_env where
  "second_env = sample_env\<lparr>spawn_result := Inr (Some 4712), random36 := ''0.q1w2e3r4t5''\<rparr>"

definition second_payload :: payload where
  "second_payload =
     \<lparr>sessionId = ''42-1700000000000-q1w2e3r'', out_wsUrl = ''ws://127.0.0.1:9229/abc'',
      out_pid = Some 4712, out_runner = Node, out_entry = ''script.js''\<rparr>"

definition second_world :: "string world" where
  "second_world =
     \<lparr>sessions = [''42-1700000000000-k3j9x2a'' \<mapsto> 0, ''42-1700000000000-q1w2e3r'' \<mapsto> 1],
      session_objs =
        [\<lparr>session_id = ''42-1700000000000-k3j9x2a'', wsUrl = ''ws://127.0.0.1:9229/abc'',
          client = 0, process = Some 0, breakpoints = 0, lastPaused = None\<rparr>,
         \<lparr>session_id = ''42-1700000000000-q1w2e3r'', wsUrl = ''ws://127.0.0.1:9229/abc'',
          client = 1, process = Some 1, breakpoints = 1, lastPaused = None\<rparr>],
      map_objs = [Map.empty, Map.empty],
      client_objs =
        [\<lparr>target = ''ws://127.0.0.1:9229/abc'', close_called = False, paused_listeners = [0],
          resumed_listeners = [0]\<rparr>,
         \<lparr>target = ''ws://127.0.0.1:9229/abc'', close_called = False, paused_listeners = [1],
          resumed_listeners = [1]\<rparr>],
      child_objs =
        [\<lparr>command = ''node'', arguments = [''--inspect-brk'', ''script.js''],
          directory = ''/srv'', pid = Some 4711\<rparr>,
         \<lparr>command = ''node'', arguments = [''--inspect-brk'', ''script.js''],
          directory = ''/srv'', pid = Some 4712\<rparr>]\<rparr>"

section \<open>Properties of endpoint discovery\<close>

lemma run_append: "run s (xs @ ys) = run (run s xs) ys"
  by (simp add: run_def)

lemma run_Cons: "run s (x # xs) = run (step s x) xs"
  by (simp add: run_def)

lemma run_Nil: "run s [] = s"
  by (simp add: run_def)

text \<open>The timer is armed exactly as long as the promise is pending.\<close>

lemma step_keeps_armed_iff_pending:
  "(settled s = Pending) = timeout_armed s \<Longrightarrow>
   (settled (step s ev) = Pending) = timeout_armed (step s ev)"
  by (cases ev)
     (auto simp: on_data_def on_error_def on_exit_def on_timeout_def resolve_def reject_def
        clearTimeout_def Let_def split: option.splits)

lemma run_keeps_armed_iff_pending:
  "(settled s = Pending) = timeout_armed s \<Longrightarrow>
   (settled (run s evs) = Pending) = timeout_armed (run s evs)"
  unfolding run_def
  by (induction evs arbitrary: s) (simp_all add: step_keeps_armed_iff_pending)

lemma armed_iff_pending:
  "(settled (run discovery_start evs) = Pending) = timeout_armed (run discovery_start evs)"
  by (rule run_keeps_armed_iff_pending) (simp add: discovery_start_def)



text \<open>The \<open>await\<close> always continues: at the latest the timer settles the promise.\<close>

lemma discover_returns: "\<exists>r. discover evs = Some r"
proof -
  let ?s = "run discovery_start evs"
  have "settled (on_timeout ?s) \<noteq> Pending"
    using armed_iff_pending [of evs]
    by (auto simp: on_timeout_def reject_def)
  then show ?thesis
    by (cases "settled (on_timeout ?s)") (simp_all add: discover_def run_append run_Cons run_Nil)
qed


subsection \<open>C2: an address split across chunks\<close>

text \<open>
  C2 says that discovery resolves with the address contained in the concatenated output
  even when the address arrives in two or more chunks. The buffer is matched after every
  chunk, and the match is greedy up to the end of the buffer: when a chunk ends inside the
  address, after \<open>ws://\<close> and at least one more character, the buffer matches already and
  the promise is resolved with the part of the address that has arrived. Here the whole
  output holds \<open>ws://127.0.0.1:9229/abc\<close> and discovery yields \<open>ws://127\<close>.
\<close>

theorem split_uri_is_truncated:
  "match_ws (''Debugger listening on ws://127'' @ ''.0.0.1:9229/abc'') =
     Some ''ws://127.0.0.1:9229/abc'' \<and>
   discover [StderrData ''Debugger listening on ws://127'', StderrData ''.0.0.1:9229/abc''] =
     Some (Inr ''ws://127'')"
  by (simp add: discover_def run_def discovery_start_def on_data_def on_timeout_def
        resolve_def clearTimeout_def is_space_def)

text \<open>
  A cut inside the literal \<open>ws://\<close> is survived: no buffer matches before the second
  chunk, and the address ends at the line break.
\<close>

lemma split_inside_prefix_is_found:
  "discover [StderrData ''Debugger listening on ws:'',
             StderrData ''//127.0.0.1:9229/abc\<newline>For help, see the docs''] =
     Some (Inr ''ws://127.0.0.1:9229/abc'')"
  by (simp add: discover_def run_def discovery_start_def on_data_def on_timeout_def
        resolve_def clearTimeout_def is_space_def)

subsection \<open>C4: exit and error before the address\<close>




subsection \<open>C6: after settlement\<close>




subsection \<open>C9: what the timeout failure carries\<close>

text \<open>
  C9 as stated: with \<open>Starting\<close> captured when the timer fires, the failure is the fixed
  timeout error, and its text does not hold the captured output.
\<close>

theorem timeout_drops_output_counterexample:
  "settled (run discovery_start [StderrData ''Starting'']) = Pending \<and>
   stderr (run discovery_start [StderrData ''Starting'']) = ''Starting'' \<and>
   discover [StderrData ''Starting''] = Some (Inl timeout_error) \<and>
   \<not> sublist ''Starting'' (error_text timeout_error)"
  by (simp add: discover_def run_def discovery_start_def on_data_def on_timeout_def reject_def
        timeout_error_def sublist_Cons_right prefix_def)

text \<open>
  C9, amended: when the deadline passes before a match and before an error or an exit with
  a code, discovery fails with an error whose message is the fixed text
  \<open>Timeout waiting for inspector WebSocket URL\<close>, whatever output was captured.
\<close>

theorem timeout_message_fixed:
  assumes "settled (run discovery_start evs) = Pending"
  shows "discover evs = Some (Inl (JsError ''Timeout waiting for inspector WebSocket URL''))"
proof -
  have "timeout_armed (run discovery_start evs)"
    using assms armed_iff_pending [of evs] by simp
  with assms show ?thesis
    by (simp add: discover_def run_append run_Cons run_Nil on_timeout_def reject_def
        timeout_error_def)
qed

text \<open>C9, amended, at a run: one chunk without an address before the deadline.\<close>

theorem timeout_message_fixed_witness:
  "settled (run discovery_start [StderrData ''Starting'']) = Pending \<and>
   discover [StderrData ''Starting''] =
     Some (Inl (JsError ''Timeout waiting for inspector WebSocket URL''))"
proof -
  have h: "settled (run discovery_start [StderrData ''Starting'']) = Pending"
    by (simp add: run_def discovery_start_def on_data_def)
  show ?thesis using h timeout_message_fixed [OF h] by simp
qed

section \<open>Properties of the handler\<close>

lemmas store_defs = spawn_def CDP_def new_Map_def new_session_def sessions_set_def
  on_paused_def on_resumed_def

lemmas discovery_defs = discover_def run_def discovery_start_def on_data_def on_error_def
  on_exit_def on_timeout_def resolve_def reject_def clearTimeout_def is_space_def

lemma connect_and_enable_cases:
  "connect_and_enable env url w =
     (case connect_result env of
        Some e \<Rightarrow> (Inl e, w)
      | None \<Rightarrow>
          (case (case debugger_enable env of Some e \<Rightarrow> Some e | None \<Rightarrow> runtime_enable env) of
             Some e \<Rightarrow> (Inl e, snd (CDP url w))
           | None \<Rightarrow> (Inr (length (client_objs w)), snd (CDP url w))))"
  by (simp add: connect_and_enable_def CDP_def split: option.splits)

lemma register_session_world:
  "snd (register_session env p url ch c w) =
     w\<lparr>sessions := (sessions w)(generateSessionId (server_pid env) (date_now env) (random36 env)
                        \<mapsto> length (session_objs w)),
       session_objs := session_objs w @
         [\<lparr>session_id = generateSessionId (server_pid env) (date_now env) (random36 env),
           wsUrl = url, client = c, process = Some ch, breakpoints = length (map_objs w),
           lastPaused = None\<rparr>],
       map_objs := map_objs w @ [Map.empty],
       client_objs := (client_objs w)
         [c := (client_objs w ! c)
            \<lparr>paused_listeners := paused_listeners (client_objs w ! c) @ [length (session_objs w)],
             resumed_listeners := resumed_listeners (client_objs w ! c) @ [length (session_objs w)]\<rparr>]\<rparr>"
  by (cases "c < length (client_objs w)")
     (simp_all add: register_session_def store_defs Let_def list_update_beyond)

lemma register_session_payload:
  "fst (register_session env p url ch c w) =
     \<lparr>sessionId = generateSessionId (server_pid env) (date_now env) (random36 env),
      out_wsUrl = url, out_pid = pid (child_objs w ! ch),
      out_runner = runner p, out_entry = entry p\<rparr>"
  by (simp add: register_session_def store_defs Let_def)

lemma start_session_failure:
  assumes "first_failure env = Some e"
  shows "\<exists>w'. start_session env p w = Some (error_result e, w') \<and>
              sessions w' = sessions w \<and> session_objs w' = session_objs w \<and>
              map_objs w' = map_objs w \<and>
              (\<exists>cs. client_objs w' = client_objs w @ cs \<and>
                 (\<forall>c \<in> set cs. paused_listeners c = [] \<and> resumed_listeners c = []))"
  using assms
  by (auto simp: first_failure_def start_session_def start_session_try_def
        connect_and_enable_cases spawn_def CDP_def
      split: sum.splits option.splits)

lemma start_session_success:
  assumes "first_failure env = None"
  shows "\<exists>cp url. spawn_result env = Inr cp \<and> discover (child_events env) = Some (Inr url) \<and>
     start_session env p w =
       Some (ok_result
               \<lparr>sessionId = generateSessionId (server_pid env) (date_now env) (random36 env),
                out_wsUrl = url, out_pid = cp, out_runner = runner p, out_entry = entry p\<rparr>,
             w\<lparr>sessions := (sessions w)
                   (generateSessionId (server_pid env) (date_now env) (random36 env)
                      \<mapsto> length (session_objs w)),
               session_objs := session_objs w @
                 [\<lparr>session_id = generateSessionId (server_pid env) (date_now env) (random36 env),
                   wsUrl = url, client = length (client_objs w),
                   process = Some (length (child_objs w)), breakpoints = length (map_objs w),
                   lastPaused = None\<rparr>],
               map_objs := map_objs w @ [Map.empty],
               client_objs := client_objs w @
                 [\<lparr>target = url, close_called = False,
                   paused_listeners = [length (session_objs w)],
                   resumed_listeners = [length (session_objs w)]\<rparr>],
               child_objs := child_objs w @
                 [\<lparr>command = fst (launch_command p), arguments = snd (launch_command p),
                   directory = launch_cwd (cwd p) (server_cwd env), pid = cp\<rparr>]\<rparr>)"
proof -
  from assms discover_returns [of "child_events env"]
  obtain cp url where a: "spawn_result env = Inr cp"
      "discover (child_events env) = Some (Inr url)"
      "connect_result env = None" "debugger_enable env = None" "runtime_enable env = None"
    by (auto simp: first_failure_def split: sum.splits option.splits)
  show ?thesis
    using a
    by (simp add: start_session_def start_session_try_def connect_and_enable_cases
          spawn_def CDP_def split_beta register_session_world register_session_payload)
qed

lemma first_failure_None_iff:
  "first_failure env = None \<longleftrightarrow>
     (\<exists>cp url. spawn_result env = Inr cp \<and> discover (child_events env) = Some (Inr url) \<and>
        connect_result env = None \<and> debugger_enable env = None \<and> runtime_enable env = None)"
  using discover_returns [of "child_events env"]
  by (auto simp: first_failure_def split: sum.splits option.splits)

lemma first_failure_Some_iff:
  "first_failure env = Some e \<longleftrightarrow>
     spawn_result env = Inl e \<or>
     (\<exists>cp. spawn_result env = Inr cp) \<and>
       (discover (child_events env) = Some (Inl e) \<or>
        (\<exists>url. discover (child_events env) = Some (Inr url)) \<and>
          (connect_result env = Some e \<or>
           connect_result env = None \<and>
             (debugger_enable env = Some e \<or>
              debugger_enable env = None \<and> runtime_enable env = Some e)))"
  by (auto simp: first_failure_def split: sum.splits option.splits)

lemma start_session_returns: "\<exists>r w'. start_session env p w = Some (r, w')"
  using start_session_failure [of env _ p w] start_session_success [of env p w]
  by (cases "first_failure env") blast+

lemma start_session_ok_cases:
  assumes "start_session env p w = Some (res, w')" and "\<not> isError res"
  shows "first_failure env = None"
proof (cases "first_failure env")
  case None
  then show ?thesis .
next
  case (Some e)
  from start_session_failure [OF Some, of p w] assms
  show ?thesis by (auto simp: error_result_def)
qed

lemma start_session_keeps_objects:
  assumes "start_session env p w = Some (r, w')"
  shows "\<exists>ss cs. session_objs w' = session_objs w @ ss \<and> client_objs w' = client_objs w @ cs \<and>
           (\<forall>c \<in> set cs. set (paused_listeners c) \<subseteq> {length (session_objs w)} \<and>
                          set (resumed_listeners c) \<subseteq> {length (session_objs w)})"
proof (cases "first_failure env")
  case None
  from start_session_success [OF None, of p w] assms
  show ?thesis by auto
next
  case (Some e)
  from start_session_failure [OF Some, of p w] assms
  show ?thesis by auto
qed

subsection \<open>The sample calls\<close>

lemma sample_discover:
  "discover (child_events sample_env) = Some (Inr ''ws://127.0.0.1:9229/abc'')"
  by (simp add: sample_env_def discover_def run_def discovery_start_def on_data_def
        on_timeout_def resolve_def clearTimeout_def is_space_def)

lemma sample_id:
  "generateSessionId (server_pid sample_env) (date_now sample_env) (random36 sample_env) =
     ''42-1700000000000-k3j9x2a''"
  by (simp add: sample_env_def generateSessionId_def show_int_def show_nat.simps digit_def
        substring_def)

lemma sample_first_failure: "first_failure sample_env = None"
  using sample_discover by (simp add: first_failure_def) (simp add: sample_env_def)

lemma sample_start:
  "start_session sample_env sample_params (empty_world :: string world) =
     Some (ok_result sample_payload, sample_world)"
  using start_session_success [OF sample_first_failure, of sample_params "empty_world :: string world"]
  by (simp add: sample_discover sample_id sample_payload_def sample_world_def empty_world_def)
     (simp add: sample_env_def sample_params_def launch_command_def inspect_flag_def
        launch_cwd_def)

lemma sample_restart:
  "start_session sample_env sample_params sample_world =
     Some (ok_result sample_payload,
           sample_world\<lparr>sessions := [''42-1700000000000-k3j9x2a'' \<mapsto> 1],
             session_objs := session_objs sample_world @
               [\<lparr>session_id = ''42-1700000000000-k3j9x2a'', wsUrl = ''ws://127.0.0.1:9229/abc'',
                 client = 1, process = Some 1, breakpoints = 1, lastPaused = None\<rparr>],
             map_objs := [Map.empty, Map.empty],
             client_objs := client_objs sample_world @
               [\<lparr>target = ''ws://127.0.0.1:9229/abc'', close_called = False, paused_listeners = [1],
                 resumed_listeners = [1]\<rparr>],
             child_objs := child_objs sample_world @
               [\<lparr>command = ''node'', arguments = [''--inspect-brk'', ''script.js''],
                 directory = ''/srv'', pid = Some 4711\<rparr>]\<rparr>)"
  using start_session_success [OF sample_first_failure, of sample_params sample_world]
  by (simp add: sample_discover sample_id sample_payload_def)
     (simp add: sample_env_def sample_params_def launch_command_def inspect_flag_def
        launch_cwd_def sample_world_def)

lemma second_first_failure: "first_failure second_env = None"
  using sample_discover
  by (simp add: first_failure_def second_env_def) (simp add: sample_env_def)

lemma second_start:
  "start_session second_env sample_params sample_world =
     Some (ok_result second_payload, second_world)"
  using start_session_success [OF second_first_failure, of sample_params sample_world]
    sample_discover
  by (simp add: second_env_def)
     (simp add: sample_env_def sample_params_def launch_command_def inspect_flag_def
        launch_cwd_def sample_world_def second_world_def second_payload_def
        generateSessionId_def show_int_def show_nat.simps digit_def substring_def)

subsection \<open>C1: a failing stage\<close>

text \<open>
  C1: when a stage of a call fails (spawn, endpoint discovery, connection, or one of the two
  \<open>enable\<close> calls), the call returns, with one result that has the error flag set and one
  text item, the fixed prefix followed by the message of the failure; the registry is as
  before and no Session object has been built.
\<close>

theorem failed_start_registers_nothing:
  assumes "first_failure env = Some e"
  shows "\<exists>w'. start_session env p w = Some (error_result e, w') \<and>
              isError (error_result e) \<and>
              content (error_result e) =
                [Text (''Failed to start debug session: '' @ error_text e)] \<and>
              sessions w' = sessions w \<and> session_objs w' = session_objs w"
  using start_session_failure [OF assms, of p w] by (auto simp: error_result_def)

text \<open>C1 at a call whose child exits with code 1 before printing an address.\<close>

theorem failed_start_registers_nothing_witness:
  "first_failure (sample_env\<lparr>child_events := [ChildExit (Some 1)]\<rparr>) = Some (exit_error 1) \<and>
   (\<exists>w'. start_session (sample_env\<lparr>child_events := [ChildExit (Some 1)]\<rparr>) sample_params
            (empty_world :: string world) = Some (error_result (exit_error 1), w') \<and>
         isError (error_result (exit_error 1)) \<and>
         content (error_result (exit_error 1)) =
           [Text (''Failed to start debug session: '' @ error_text (exit_error 1))] \<and>
         sessions w' = sessions (empty_world :: string world) \<and>
         session_objs w' = session_objs (empty_world :: string world))"
proof -
  have h: "first_failure (sample_env\<lparr>child_events := [ChildExit (Some 1)]\<rparr>) =
      Some (exit_error 1)"
    by (simp add: first_failure_def sample_env_def discover_def run_def discovery_start_def
          on_exit_def on_timeout_def reject_def clearTimeout_def)
  show ?thesis
    using h failed_start_registers_nothing [OF h, of sample_params "empty_world :: string world"]
    by simp
qed

subsection \<open>C5: a failing enable call\<close>

text \<open>
  C5 as stated: the connection succeeds and \<open>Debugger.enable\<close> fails. The call returns the
  error result, and \<open>close()\<close> has not been called on the client that was connected: the
  handler has no call of \<open>close\<close>.
\<close>

theorem enable_failure_makes_no_close_call_counterexample:
  "connect_result (sample_env\<lparr>debugger_enable := Some (JsError ''enable failed'')\<rparr>) = None \<and>
   fst (the (start_session (sample_env\<lparr>debugger_enable := Some (JsError ''enable failed'')\<rparr>)
               sample_params (empty_world :: string world))) =
     error_result (JsError ''enable failed'') \<and>
   map close_called
     (client_objs
        (snd (the (start_session (sample_env\<lparr>debugger_enable := Some (JsError ''enable failed'')\<rparr>)
                     sample_params (empty_world :: string world))))) = [False]"
  by (simp add: sample_env_def start_session_def start_session_try_def connect_and_enable_def
        store_defs empty_world_def discovery_defs)

text \<open>
  C5, amended: when the connection succeeds and \<open>Debugger.enable\<close> or \<open>Runtime.enable\<close>
  fails, the call returns the error-flagged result with the message of the failed call and
  registers no session; the handler does not call \<open>close()\<close> on the connection it
  opened.
\<close>

theorem enable_failure_makes_no_close_call:
  assumes "spawn_result env = Inr cp"
    and "discover (child_events env) = Some (Inr url)"
    and "connect_result env = None"
    and "debugger_enable env = Some e \<or> debugger_enable env = None \<and> runtime_enable env = Some e"
  shows "\<exists>w'. start_session env p w = Some (error_result e, w') \<and>
              isError (error_result e) \<and>
              content (error_result e) =
                [Text (''Failed to start debug session: '' @ error_text e)] \<and>
              sessions w' = sessions w \<and> session_objs w' = session_objs w \<and>
              client_objs w' = client_objs w @
                [\<lparr>target = url, close_called = False, paused_listeners = [],
                  resumed_listeners = []\<rparr>]"
  using assms
  by (auto simp: start_session_def start_session_try_def connect_and_enable_cases spawn_def
        CDP_def error_result_def)

text \<open>C5, amended, at a call in which \<open>Runtime.enable\<close> fails, after the sample call.\<close>

theorem enable_failure_makes_no_close_call_witness:
  "spawn_result (sample_env\<lparr>runtime_enable := Some (JsError ''enable failed'')\<rparr>) =
     Inr (Some 4711) \<and>
   discover (child_events (sample_env\<lparr>runtime_enable := Some (JsError ''enable failed'')\<rparr>)) =
     Some (Inr ''ws://127.0.0.1:9229/abc'') \<and>
   connect_result (sample_env\<lparr>runtime_enable := Some (JsError ''enable failed'')\<rparr>) = None \<and>
   debugger_enable (sample_env\<lparr>runtime_enable := Some (JsError ''enable failed'')\<rparr>) = None \<and>
   runtime_enable (sample_env\<lparr>runtime_enable := Some (JsError ''enable failed'')\<rparr>) =
     Some (JsError ''enable failed'') \<and>
   (\<exists>w'. start_session (sample_env\<lparr>runtime_enable := Some (JsError ''enable failed'')\<rparr>)
            sample_params sample_world = Some (error_result (JsError ''enable failed''), w') \<and>
         isError (error_result (JsError ''enable failed'')) \<and>
         content (error_result (JsError ''enable failed'')) =
           [Text (''Failed to start debug session: '' @ error_text (JsError ''enable failed''))] \<and>
         sessions w' = sessions sample_world \<and> session_objs w' = session_objs sample_world \<and>
         client_objs w' = client_objs sample_world @
           [\<lparr>target = ''ws://127.0.0.1:9229/abc'', close_called = False, paused_listeners = [],
             resumed_listeners = []\<rparr>])"
proof -
  let ?env = "sample_env\<lparr>runtime_enable := Some (JsError ''enable failed'')\<rparr>"
  have h1: "spawn_result ?env = Inr (Some 4711)" by (simp add: sample_env_def)
  have h2: "discover (child_events ?env) = Some (Inr ''ws://127.0.0.1:9229/abc'')"
    using sample_discover by simp
  have h3: "connect_result ?env = None" by (simp add: sample_env_def)
  have h4: "debugger_enable ?env = Some (JsError ''enable failed'') \<or>
      debugger_enable ?env = None \<and> runtime_enable ?env = Some (JsError ''enable failed'')"
    by (simp add: sample_env_def)
  show ?thesis
    using h1 h2 h3 h4 enable_failure_makes_no_close_call [OF h1 h2 h3 h4, of sample_params sample_world]
    by (simp add: sample_env_def)
qed

subsection \<open>C7: an identifier that is already registered\<close>

text \<open>
  C7 as stated: the sample call, made twice with the same clock value and random text,
  generates the same identifier twice. The second call succeeds, and the registry maps the
  identifier to the second Session object.
\<close>

theorem duplicate_id_is_overwritten_counterexample:
  "start_session sample_env sample_params (empty_world :: string world) =
     Some (ok_result sample_payload, sample_world) \<and>
   sessions sample_world (sessionId sample_payload) = Some 0 \<and>
   fst (the (start_session sample_env sample_params sample_world)) = ok_result sample_payload \<and>
   \<not> isError (ok_result sample_payload) \<and>
   sessions (snd (the (start_session sample_env sample_params sample_world)))
     (sessionId sample_payload) = Some 1"
  by (simp add: sample_start sample_restart)
     (simp add: sample_world_def sample_payload_def ok_result_def)

text \<open>
  C7, amended: when the generated identifier is already a key of the registry, the call
  succeeds all the same, and \<open>sessions.set\<close> replaces the entry: the identifier then leads
  to the new Session object, not to the one registered before.
\<close>

theorem duplicate_id_overwrites:
  assumes "first_failure env = None"
    and "sessions w (generateSessionId (server_pid env) (date_now env) (random36 env)) = Some old"
    and "old < length (session_objs w)"
  shows "\<exists>pl w'. start_session env p w = Some (ok_result pl, w') \<and>
           \<not> isError (ok_result pl) \<and>
           sessionId pl = generateSessionId (server_pid env) (date_now env) (random36 env) \<and>
           sessions w' (sessionId pl) = Some (length (session_objs w)) \<and>
           length (session_objs w) \<noteq> old"
  using start_session_success [OF assms(1), of p w] assms(2,3)
  by (auto simp: ok_result_def)

text \<open>C7, amended, at the repeated sample call.\<close>

theorem duplicate_id_overwrites_witness:
  "first_failure sample_env = None \<and>
   sessions sample_world
     (generateSessionId (server_pid sample_env) (date_now sample_env) (random36 sample_env)) =
     Some 0 \<and>
   0 < length (session_objs sample_world) \<and>
   (\<exists>pl w'. start_session sample_env sample_params sample_world = Some (ok_result pl, w') \<and>
           \<not> isError (ok_result pl) \<and>
           sessionId pl =
             generateSessionId (server_pid sample_env) (date_now sample_env)
               (random36 sample_env) \<and>
           sessions w' (sessionId pl) = Some (length (session_objs sample_world)) \<and>
           length (session_objs sample_world) \<noteq> 0)"
proof -
  have h2: "sessions sample_world
      (generateSessionId (server_pid sample_env) (date_now sample_env) (random36 sample_env)) =
      Some 0"
    by (simp add: sample_id) (simp add: sample_world_def)
  have h3: "0 < length (session_objs sample_world)"
    by (simp add: sample_world_def)
  show ?thesis
    using sample_first_failure h2 h3
      duplicate_id_overwrites [OF sample_first_failure h2 h3, of sample_params]
    by simp
qed

section \<open>The store stays well-formed\<close>

lemma paused_handler_frame:
  "sessions (paused_handler s ev w) = sessions w"
  "map_objs (paused_handler s ev w) = map_objs w"
  "client_objs (paused_handler s ev w) = client_objs w"
  "child_objs (paused_handler s ev w) = child_objs w"
  "length (session_objs (paused_handler s ev w)) = length (session_objs w)"
  by (simp_all add: paused_handler_def)

lemma resumed_handler_frame:
  "sessions (resumed_handler s w) = sessions w"
  "map_objs (resumed_handler s w) = map_objs w"
  "client_objs (resumed_handler s w) = client_objs w"
  "child_objs (resumed_handler s w) = child_objs w"
  "length (session_objs (resumed_handler s w)) = length (session_objs w)"
  by (simp_all add: resumed_handler_def)

text \<open>What a list of handlers leaves of a Session object: everything but the snapshot.\<close>

lemma set_snapshots_frame:
  "sessions (foldl (\<lambda>w' s. w'\<lparr>session_objs := (session_objs w')[s := (session_objs w' ! s)\<lparr>lastPaused := v\<rparr>]\<rparr>) w ls) = sessions w \<and>
   map_objs (foldl (\<lambda>w' s. w'\<lparr>session_objs := (session_objs w')[s := (session_objs w' ! s)\<lparr>lastPaused := v\<rparr>]\<rparr>) w ls) = map_objs w \<and>
   client_objs (foldl (\<lambda>w' s. w'\<lparr>session_objs := (session_objs w')[s := (session_objs w' ! s)\<lparr>lastPaused := v\<rparr>]\<rparr>) w ls) = client_objs w \<and>
   child_objs (foldl (\<lambda>w' s. w'\<lparr>session_objs := (session_objs w')[s := (session_objs w' ! s)\<lparr>lastPaused := v\<rparr>]\<rparr>) w ls) = child_objs w \<and>
   length (session_objs (foldl (\<lambda>w' s. w'\<lparr>session_objs := (session_objs w')[s := (session_objs w' ! s)\<lparr>lastPaused := v\<rparr>]\<rparr>) w ls)) = length (session_objs w)"
  by (induction ls arbitrary: w) simp_all

lemma set_snapshots_nth:
  "i < length (session_objs w) \<Longrightarrow>
   session_objs (foldl (\<lambda>w' s. w'\<lparr>session_objs := (session_objs w')[s := (session_objs w' ! s)\<lparr>lastPaused := v\<rparr>]\<rparr>) w ls) ! i =
     (if i \<in> set ls then (session_objs w ! i)\<lparr>lastPaused := v\<rparr> else session_objs w ! i)"
proof (induction ls arbitrary: w)
  case Nil
  then show ?case by simp
next
  case (Cons a ls)
  then show ?case
    by (cases "a = i") (simp_all add: nth_list_update)
qed

lemma emit_alt:
  "emit c n w =
     (if c < length (client_objs w)
      then foldl (\<lambda>w' s. w'\<lparr>session_objs := (session_objs w')
                     [s := (session_objs w' ! s)\<lparr>lastPaused := snapshot_of n\<rparr>]\<rparr>) w
             (listeners_for n (client_objs w ! c))
      else w)"
  by (cases n)
     (simp_all add: emit_def snapshot_of_def listeners_for_def paused_handler_def
        resumed_handler_def)

lemma emit_frame:
  "sessions (emit c n w) = sessions w"
  "map_objs (emit c n w) = map_objs w"
  "client_objs (emit c n w) = client_objs w"
  "child_objs (emit c n w) = child_objs w"
  "length (session_objs (emit c n w)) = length (session_objs w)"
  by (simp_all add: emit_alt set_snapshots_frame)

lemma emit_nth:
  "i < length (session_objs w) \<Longrightarrow>
   session_objs (emit c n w) ! i =
     (if c < length (client_objs w) \<and> i \<in> set (listeners_for n (client_objs w ! c))
      then (session_objs w ! i)\<lparr>lastPaused := snapshot_of n\<rparr>
      else session_objs w ! i)"
  by (simp add: emit_alt set_snapshots_nth)

lemma wf_world_nth:
  "wf_world w =
     ((\<forall>c < length (client_objs w).
         (\<forall>s \<in> set (paused_listeners (client_objs w ! c)). s < length (session_objs w)) \<and>
         (\<forall>s \<in> set (resumed_listeners (client_objs w ! c)). s < length (session_objs w))) \<and>
      (\<forall>i < length (session_objs w).
         breakpoints (session_objs w ! i) < length (map_objs w) \<and>
         client (session_objs w ! i) < length (client_objs w)) \<and>
      (\<forall>r \<in> ran (sessions w). r < length (session_objs w)))"
  unfolding wf_world_def all_set_conv_all_nth ..

lemma wf_empty_world: "wf_world empty_world"
  by (simp add: wf_world_def empty_world_def)

lemma wf_emit: "wf_world w \<Longrightarrow> wf_world (emit c n w)"
  unfolding wf_world_nth by (simp add: emit_frame emit_nth)

lemma wf_start_session:
  assumes "wf_world w" and "start_session env p w = Some (r, w')"
  shows "wf_world w'"
proof (cases "first_failure env")
  case None
  from start_session_success [OF None, of p w] assms(2)
  obtain cp url where w': "w' = w\<lparr>sessions := (sessions w)
                   (generateSessionId (server_pid env) (date_now env) (random36 env)
                      \<mapsto> length (session_objs w)),
               session_objs := session_objs w @
                 [\<lparr>session_id = generateSessionId (server_pid env) (date_now env) (random36 env),
                   wsUrl = url, client = length (client_objs w),
                   process = Some (length (child_objs w)), breakpoints = length (map_objs w),
                   lastPaused = None\<rparr>],
               map_objs := map_objs w @ [Map.empty],
               client_objs := client_objs w @
                 [\<lparr>target = url, close_called = False,
                   paused_listeners = [length (session_objs w)],
                   resumed_listeners = [length (session_objs w)]\<rparr>],
               child_objs := child_objs w @
                 [\<lparr>command = fst (launch_command p), arguments = snd (launch_command p),
                   directory = launch_cwd (cwd p) (server_cwd env), pid = cp\<rparr>]\<rparr>"
    by auto
  have "r < length (session_objs w) + 1"
    if "r \<in> ran ((sessions w)(k \<mapsto> length (session_objs w)))" for r k
    using that assms(1) unfolding wf_world_def ran_def by (auto split: if_splits)
  then show ?thesis
    using assms(1) unfolding w' wf_world_def by (auto simp: less_Suc_eq)
next
  case (Some e)
  from start_session_failure [OF Some, of p w] assms(2)
  obtain cs where "sessions w' = sessions w" "session_objs w' = session_objs w"
      "map_objs w' = map_objs w" "client_objs w' = client_objs w @ cs"
      "\<forall>c \<in> set cs. paused_listeners c = [] \<and> resumed_listeners c = []"
    by auto
  then show ?thesis
    using assms(1) unfolding wf_world_def by auto
qed

lemma wf_perform: "wf_world w \<Longrightarrow> wf_world (perform w a)"
proof (cases a)
  case (Start env p)
  assume "wf_world w"
  then show ?thesis
    using Start start_session_returns [of env p w] wf_start_session [of w env p]
    by auto
next
  case (Notify c n)
  assume "wf_world w"
  then show ?thesis using Notify by (simp add: wf_emit)
qed

lemma wf_perform_all: "wf_world w \<Longrightarrow> wf_world (perform_all w acts)"
  unfolding perform_all_def
  by (induction acts arbitrary: w) (simp_all add: wf_perform)

lemma wf_reachable: "wf_world (perform_all empty_world acts)"
  by (simp add: wf_perform_all wf_empty_world)

subsection \<open>C10: what a successful call stores and returns\<close>

text \<open>
  C10: after a successful call, in any state the server can reach, the registry maps the
  returned \<open>sessionId\<close> to a Session object whose \<open>id\<close> is that identifier, whose
  \<open>wsUrl\<close> and whose child's \<open>pid\<close> are the ones returned, which has no snapshot, and
  whose breakpoint map is empty, did not exist before the call and belongs to no other
  Session object.
\<close>

theorem successful_start_registers_fresh_session:
  assumes "start_session env p (perform_all empty_world before) = Some (res, w')"
    and "\<not> isError res"
  shows "\<exists>pl s ch.
           content res = [JsonText pl] \<and>
           sessions w' (sessionId pl) = Some s \<and> s < length (session_objs w') \<and>
           session_id (session_objs w' ! s) = sessionId pl \<and>
           wsUrl (session_objs w' ! s) = out_wsUrl pl \<and>
           process (session_objs w' ! s) = Some ch \<and> ch < length (child_objs w') \<and>
           pid (child_objs w' ! ch) = out_pid pl \<and>
           lastPaused (session_objs w' ! s) = None \<and>
           breakpoints (session_objs w' ! s) < length (map_objs w') \<and>
           map_objs w' ! breakpoints (session_objs w' ! s) = Map.empty \<and>
           length (map_objs (perform_all empty_world before)) \<le> breakpoints (session_objs w' ! s) \<and>
           (\<forall>s' < length (session_objs w'). s' \<noteq> s \<longrightarrow>
              breakpoints (session_objs w' ! s') \<noteq> breakpoints (session_objs w' ! s))"
proof -
  let ?w = "perform_all empty_world before"
  have ok: "first_failure env = None"
    using assms by (rule start_session_ok_cases)
  have old: "breakpoints (session_objs ?w ! i) < length (map_objs ?w)"
    if "i < length (session_objs ?w)" for i
    using wf_reachable [of before] that unfolding wf_world_nth by blast
  from start_session_success [OF ok, of p ?w] assms(1)
  show ?thesis
    using old by (fastforce simp: ok_result_def nth_append less_Suc_eq)
qed

text \<open>C10 at the second call, made after the sample call.\<close>

theorem successful_start_registers_fresh_session_witness:
  "start_session second_env sample_params
     (perform_all empty_world [Start sample_env sample_params]) =
     Some (ok_result second_payload, second_world) \<and>
   \<not> isError (ok_result second_payload) \<and>
   (\<exists>pl s ch.
      content (ok_result second_payload) = [JsonText pl] \<and>
      sessions second_world (sessionId pl) = Some s \<and> s < length (session_objs second_world) \<and>
      session_id (session_objs second_world ! s) = sessionId pl \<and>
      wsUrl (session_objs second_world ! s) = out_wsUrl pl \<and>
      process (session_objs second_world ! s) = Some ch \<and>
      ch < length (child_objs second_world) \<and>
      pid (child_objs second_world ! ch) = out_pid pl \<and>
      lastPaused (session_objs second_world ! s) = None \<and>
      breakpoints (session_objs second_world ! s) < length (map_objs second_world) \<and>
      map_objs second_world ! breakpoints (session_objs second_world ! s) = Map.empty \<and>
      length (map_objs (perform_all (empty_world :: string world)
                          [Start sample_env sample_params]))
        \<le> breakpoints (session_objs second_world ! s) \<and>
      (\<forall>s' < length (session_objs second_world). s' \<noteq> s \<longrightarrow>
         breakpoints (session_objs second_world ! s') \<noteq>
           breakpoints (session_objs second_world ! s)))"
proof -
  have h1: "start_session second_env sample_params
      (perform_all empty_world [Start sample_env sample_params]) =
      Some (ok_result second_payload, second_world)"
    by (simp add: perform_all_def sample_start second_start)
  have h2: "\<not> isError (ok_result second_payload)"
    by (simp add: ok_result_def)
  show ?thesis
    using h1 h2 successful_start_registers_fresh_session [OF h1 h2] by simp
qed

section \<open>Notifications and the snapshot\<close>

lemma owned_by_perform:
  assumes "owned_by w s c"
  shows "owned_by (perform w a) s c"
proof (cases a)
  case (Start env p)
  obtain r w' where r: "start_session env p w = Some (r, w')"
    using start_session_returns by blast
  from start_session_keeps_objects [OF r]
  obtain ss cs where k: "session_objs w' = session_objs w @ ss"
      "client_objs w' = client_objs w @ cs"
      "\<forall>c \<in> set cs. set (paused_listeners c) \<subseteq> {length (session_objs w)} \<and>
                          set (resumed_listeners c) \<subseteq> {length (session_objs w)}"
    by blast
  have new: "s \<notin> set (paused_listeners (cs ! i)) \<and> s \<notin> set (resumed_listeners (cs ! i))"
    if "i < length cs" for i
    using k(3) that assms unfolding owned_by_def by (metis less_irrefl nth_mem singletonD subsetD)
  show ?thesis
    using assms new unfolding Start owned_by_def
    by (auto simp: r k nth_append)
next
  case (Notify c' n)
  then show ?thesis
    using assms unfolding owned_by_def by (simp add: emit_frame)
qed

lemma perform_snapshot:
  assumes "owned_by w s c"
  shows "lastPaused (session_objs (perform w a) ! s) =
           (case a of
              Start env p \<Rightarrow> lastPaused (session_objs w ! s)
            | Notify c' n \<Rightarrow> if c' = c then snapshot_of n else lastPaused (session_objs w ! s))"
proof (cases a)
  case (Start env p)
  obtain r w' where r: "start_session env p w = Some (r, w')"
    using start_session_returns by blast
  from start_session_keeps_objects [OF r] assms
  show ?thesis unfolding Start owned_by_def by (auto simp: r nth_append)
next
  case (Notify c' n)
  have s: "s < length (session_objs w)" using assms by (simp add: owned_by_def)
  show ?thesis
  proof (cases "c' = c")
    case True
    then show ?thesis
      using assms unfolding Notify owned_by_def
      by (cases n) (simp_all add: emit_nth listeners_for_def)
  next
    case False
    then show ?thesis
      using assms unfolding Notify owned_by_def
      by (cases n) (auto simp add: emit_nth listeners_for_def)
  qed
qed

lemma perform_all_snapshot:
  assumes "owned_by w s c"
  shows "lastPaused (session_objs (perform_all w acts) ! s) =
           (if notifications_of c acts = [] then lastPaused (session_objs w ! s)
            else snapshot_of (last (notifications_of c acts)))"
  using assms
proof (induction acts arbitrary: w)
  case Nil
  then show ?case by (simp add: perform_all_def)
next
  case (Cons a acts)
  have step: "perform_all w (a # acts) = perform_all (perform w a) acts"
    by (simp add: perform_all_def)
  have o: "owned_by (perform w a) s c"
    using Cons.prems by (rule owned_by_perform)
  show ?case
    unfolding step Cons.IH [OF o] perform_snapshot [OF Cons.prems]
    by (cases a) auto
qed

lemma owned_by_new_session:
  assumes "wf_world w" and "first_failure env = None"
    and "start_session env p w = Some (r, w')"
  shows "owned_by w' (length (session_objs w)) (length (client_objs w))"
proof -
  have "s < length (session_objs w)"
    if "c < length (client_objs w)"
      "s \<in> set (paused_listeners (client_objs w ! c)) \<union> set (resumed_listeners (client_objs w ! c))"
    for c s
    using that assms(1) unfolding wf_world_nth by auto
  then have old: "length (session_objs w) \<notin> set (paused_listeners (client_objs w ! c)) \<and>
      length (session_objs w) \<notin> set (resumed_listeners (client_objs w ! c))"
    if "c < length (client_objs w)" for c
    using that by blast
  from start_session_success [OF assms(2), of p w] assms(3)
  show ?thesis
    unfolding owned_by_def using old by (auto simp: nth_append less_Suc_eq)
qed

subsection \<open>C3: the snapshot of the last pause\<close>

text \<open>
  C3: take a Session that a successful call has registered, and any run of the server
  after it: further calls, and notifications of any client, in any order. The snapshot of
  the Session is then decided by the last notification its own client has delivered: the
  payload of that notification if it was a pause (so of the second of two pauses in a
  row), nothing if it was a resume or if none was delivered. Nothing else in the run
  changes it, and it is there exactly when the last notification was a pause.
\<close>

theorem snapshot_follows_last_notification:
  assumes "start_session env p (perform_all empty_world before) = Some (res, w1)"
    and "content res = [JsonText pl]"
    and "sessions w1 (sessionId pl) = Some s"
  shows "lastPaused (session_objs (perform_all w1 acts) ! s) =
           (if notifications_of (client (session_objs w1 ! s)) acts = [] then None
            else case last (notifications_of (client (session_objs w1 ! s)) acts) of
                   Paused ev \<Rightarrow> Some ev
                 | Resumed \<Rightarrow> None) \<and>
         (lastPaused (session_objs (perform_all w1 acts) ! s) \<noteq> None) =
           (notifications_of (client (session_objs w1 ! s)) acts \<noteq> [] \<and>
            (\<exists>ev. last (notifications_of (client (session_objs w1 ! s)) acts) = Paused ev))"
proof -
  let ?w = "perform_all empty_world before"
  have ok: "first_failure env = None"
  proof (cases "first_failure env")
    case (Some e)
    from start_session_failure [OF Some, of p ?w] assms(1,2)
    show ?thesis by (auto simp: error_result_def)
  qed
  have own: "owned_by w1 (length (session_objs ?w)) (length (client_objs ?w))"
    using wf_reachable ok assms(1) by (rule owned_by_new_session)
  from start_session_success [OF ok, of p ?w] assms
  have s: "s = length (session_objs ?w)"
    and c: "client (session_objs w1 ! s) = length (client_objs ?w)"
    and fresh: "lastPaused (session_objs w1 ! s) = None"
    by (auto simp: ok_result_def)
  have "lastPaused (session_objs (perform_all w1 acts) ! s) =
      (if notifications_of (client (session_objs w1 ! s)) acts = [] then None
       else snapshot_of (last (notifications_of (client (session_objs w1 ! s)) acts)))"
    using perform_all_snapshot [OF own, of acts] fresh unfolding s [symmetric] c [symmetric]
    by simp
  then show ?thesis
    by (auto simp: snapshot_of_def split: notification.splits)
qed

text \<open>
  C3 at a run after the sample call: pauses and a resume of its client, with another call
  and notifications of the other client in between.
\<close>

theorem snapshot_follows_last_notification_witness:
  "start_session sample_env sample_params (perform_all empty_world []) =
     Some (ok_result sample_payload, sample_world) \<and>
   content (ok_result sample_payload) = [JsonText sample_payload] \<and>
   sessions sample_world (sessionId sample_payload) = Some 0 \<and>
   lastPaused
     (session_objs
        (perform_all sample_world
           [Notify 0 (Paused ''first''), Notify 0 Resumed, Start sample_env sample_params,
            Notify 1 (Paused ''other''), Notify 0 (Paused ''second''),
            Notify 0 (Paused ''third''), Notify 1 Resumed]) ! 0) = Some ''third''"
proof -
  have h1: "start_session sample_env sample_params (perform_all empty_world []) =
      Some (ok_result sample_payload, sample_world)"
    by (simp add: perform_all_def sample_start)
  have h2: "content (ok_result sample_payload) = [JsonText sample_payload]"
    by (simp add: ok_result_def)
  have h3: "sessions sample_world (sessionId sample_payload) = Some 0"
    by (simp add: sample_world_def sample_payload_def)
  have c: "client (session_objs sample_world ! 0) = 0"
    by (simp add: sample_world_def)
  show ?thesis
    using h1 h2 h3
      snapshot_follows_last_notification [OF h1 h2 h3,
        of "[Notify 0 (Paused ''first''), Notify 0 Resumed, Start sample_env sample_params,
            Notify 1 (Paused ''other''), Notify 0 (Paused ''second''),
            Notify 0 (Paused ''third''), Notify 1 Resumed]"]
    by (simp add: c)
qed

section \<open>Session identifiers\<close>

lemma digit_cases: "d < 10 \<Longrightarrow> d \<in> {0, 1, 2, 3, 4, 5, 6, 7, 8, 9::nat}"
  by auto

lemma digit_value_digit: "d < 10 \<Longrightarrow> digit_value (digit d) = d"
  by (drule digit_cases) (auto simp: digit_def digit_value_def)

lemma digit_not_minus: "d < 10 \<Longrightarrow> digit d \<noteq> CHR ''-''"
  by (drule digit_cases) (auto simp: digit_def)

lemma read_nat_snoc: "read_nat (xs @ [c]) = 10 * read_nat xs + digit_value c"
  by (simp add: read_nat_def)

lemma read_show_nat: "read_nat (show_nat n) = n"
proof (induction n rule: show_nat.induct)
  case (1 n)
  show ?case
  proof (cases "n < 10")
    case True
    then show ?thesis
      by (simp add: show_nat.simps [of n] read_nat_def digit_value_digit)
  next
    case False
    then have "read_nat (show_nat n) = 10 * (n div 10) + n mod 10"
      using 1 by (simp add: show_nat.simps [of n] read_nat_snoc digit_value_digit)
    then show ?thesis by simp
  qed
qed

lemma show_nat_inj: "show_nat m = show_nat n \<Longrightarrow> m = n"
  by (metis read_show_nat)

lemma show_nat_no_minus: "CHR ''-'' \<notin> set (show_nat n)"
proof (induction n rule: show_nat.induct)
  case (1 n)
  show ?case
  proof (cases "n < 10")
    case True
    then show ?thesis
      using digit_not_minus [of n] by (simp add: show_nat.simps [of n])
  next
    case False
    then show ?thesis
      using 1 digit_not_minus [of "n mod 10"] by (simp add: show_nat.simps [of n])
  qed
qed

lemma show_nat_not_Nil: "show_nat n \<noteq> []"
  by (cases "n < 10") (simp_all add: show_nat.simps [of n])

text \<open>A text without the separator, the separator, and a rest: the parts can be read off.\<close>

lemma split_at_minus:
  assumes "a @ CHR ''-'' # x = b @ CHR ''-'' # y"
    and "CHR ''-'' \<notin> set a" and "CHR ''-'' \<notin> set b"
  shows "a = b \<and> x = y"
proof -
  have cut: "takeWhile (\<lambda>c. c \<noteq> CHR ''-'') (u @ CHR ''-'' # v) = u"
    if "CHR ''-'' \<notin> set u" for u v
    using that by (induction u) auto
  have "takeWhile (\<lambda>c. c \<noteq> CHR ''-'') (a @ CHR ''-'' # x) = a"
    using assms(2) by (rule cut)
  moreover have "takeWhile (\<lambda>c. c \<noteq> CHR ''-'') (b @ CHR ''-'' # y) = b"
    using assms(3) by (rule cut)
  ultimately have "a = b" using assms(1) by simp
  with assms(1) show ?thesis by simp
qed

lemma show_nat_split:
  "show_nat m @ CHR ''-'' # x = show_nat n @ CHR ''-'' # y \<Longrightarrow> m = n \<and> x = y"
  using split_at_minus [OF _ show_nat_no_minus show_nat_no_minus] show_nat_inj by blast

lemma show_int_split:
  assumes "show_int i @ CHR ''-'' # x = show_int j @ CHR ''-'' # y"
  shows "i = j \<and> x = y"
proof -
  have hd_nat: "hd (show_nat n @ r) \<noteq> CHR ''-''" for n r
    using show_nat_no_minus [of n] show_nat_not_Nil [of n]
    by (cases "show_nat n") auto
  consider "i < 0" "j < 0" | "\<not> i < 0" "\<not> j < 0" | "i < 0" "\<not> j < 0" | "\<not> i < 0" "j < 0"
    by blast
  then show ?thesis
  proof cases
    case 1
    with assms have "nat (- i) = nat (- j) \<and> x = y"
      by (intro show_nat_split) (simp add: show_int_def)
    with 1 show ?thesis by linarith
  next
    case 2
    with assms have "nat i = nat j \<and> x = y"
      by (intro show_nat_split) (simp add: show_int_def)
    with 2 show ?thesis by linarith
  next
    case 3
    with assms have "CHR ''-'' = hd (show_nat (nat j) @ CHR ''-'' # y)"
      by (simp add: show_int_def) (metis list.sel(1))
    with hd_nat show ?thesis by metis
  next
    case 4
    with assms have "hd (show_nat (nat i) @ CHR ''-'' # x) = CHR ''-''"
      by (simp add: show_int_def)
    with hd_nat show ?thesis by metis
  qed
qed

lemma generateSessionId_inj:
  assumes "generateSessionId p1 t1 r1 = generateSessionId p2 t2 r2"
  shows "p1 = p2 \<and> t1 = t2 \<and> substring 2 9 r1 = substring 2 9 r2"
proof -
  from assms have "show_nat p1 @ CHR ''-'' # (show_int t1 @ CHR ''-'' # substring 2 9 r1) =
      show_nat p2 @ CHR ''-'' # (show_int t2 @ CHR ''-'' # substring 2 9 r2)"
    by (simp add: generateSessionId_def)
  then have "p1 = p2" and
      "show_int t1 @ CHR ''-'' # substring 2 9 r1 = show_int t2 @ CHR ''-'' # substring 2 9 r2"
    using show_nat_split by blast+
  then show ?thesis using show_int_split by blast
qed

lemma start_sessions_ids:
  "result_ids (start_sessions w calls) =
     map (\<lambda>call. generateSessionId (server_pid (fst call)) (date_now (fst call))
                   (random36 (fst call)))
       (filter (\<lambda>call. first_failure (fst call) = None) calls)"
proof (induction calls arbitrary: w)
  case Nil
  then show ?case by (simp add: result_ids_def)
next
  case (Cons call calls)
  show ?case
  proof (cases "first_failure (fst call)")
    case None
    from start_session_success [OF None, of "snd call" w]
    obtain pl w' where "start_session (fst call) (snd call) w = Some (ok_result pl, w')"
      "sessionId pl = generateSessionId (server_pid (fst call)) (date_now (fst call))
                   (random36 (fst call))"
      by auto
    then show ?thesis
      using None Cons.IH [of w'] by (simp add: result_ids_def ok_result_def)
  next
    case (Some e)
    from start_session_failure [OF Some, of "snd call" w]
    obtain w' where "start_session (fst call) (snd call) w = Some (error_result e, w')"
      by auto
    then show ?thesis
      using Some Cons.IH [of w'] by (simp add: result_ids_def error_result_def)
  qed
qed

subsection \<open>C8: distinct identifiers\<close>

text \<open>
  C8 as stated: two calls that read the same clock value and draw the same random text
  report the same identifier.
\<close>

theorem ids_repeat_counterexample:
  "result_ids (start_sessions (empty_world :: string world)
      [(sample_env, sample_params), (sample_env, sample_params)]) =
     [''42-1700000000000-k3j9x2a'', ''42-1700000000000-k3j9x2a''] \<and>
   \<not> distinct (result_ids (start_sessions (empty_world :: string world)
      [(sample_env, sample_params), (sample_env, sample_params)]))"
  by (simp add: sample_start sample_restart result_ids_def ok_result_def sample_payload_def)

text \<open>
  C8, amended: the identifiers that a sequence of calls reports are pairwise distinct
  whenever the calls differ pairwise in the server's pid, the clock value or characters 2
  to 8 of the random text.
\<close>

theorem ids_distinct_when_parts_differ:
  assumes "distinct (map (\<lambda>call. (server_pid (fst call), date_now (fst call),
                                 substring 2 9 (random36 (fst call)))) calls)"
  shows "distinct (result_ids (start_sessions w calls))"
proof -
  let ?parts = "\<lambda>call :: call_env \<times> start_params.
      (server_pid (fst call), date_now (fst call), substring 2 9 (random36 (fst call)))"
  let ?gen = "\<lambda>call :: call_env \<times> start_params.
      generateSessionId (server_pid (fst call)) (date_now (fst call)) (random36 (fst call))"
  let ?ok = "\<lambda>call :: call_env \<times> start_params. first_failure (fst call) = None"
  have "distinct (map ?parts (filter ?ok calls))"
    using assms by (rule distinct_map_filter)
  then have d: "distinct (filter ?ok calls)" and i: "inj_on ?parts (set (filter ?ok calls))"
    by (simp_all add: distinct_map)
  have "inj_on ?gen (set (filter ?ok calls))"
  proof (rule inj_onI)
    fix a b
    assume a: "a \<in> set (filter ?ok calls)" and b: "b \<in> set (filter ?ok calls)"
      and eq: "?gen a = ?gen b"
    from generateSessionId_inj [OF eq] have "?parts a = ?parts b" by simp
    with i a b show "a = b" unfolding inj_on_def by blast
  qed
  with d have "distinct (map ?gen (filter ?ok calls))"
    by (simp add: distinct_map)
  then show ?thesis by (simp add: start_sessions_ids)
qed

text \<open>C8, amended, at the sample call followed by the second call.\<close>

theorem ids_distinct_when_parts_differ_witness:
  "distinct (map (\<lambda>call. (server_pid (fst call), date_now (fst call),
                          substring 2 9 (random36 (fst call))))
      [(sample_env, sample_params), (second_env, sample_params)]) \<and>
   distinct (result_ids (start_sessions (empty_world :: string world)
      [(sample_env, sample_params), (second_env, sample_params)]))"
proof -
  have h: "distinct (map (\<lambda>call. (server_pid (fst call), date_now (fst call),
                          substring 2 9 (random36 (fst call))))
      [(sample_env, sample_params), (second_env, sample_params)])"
    by (simp add: second_env_def sample_env_def substring_def)
  show ?thesis
    using h ids_distinct_when_parts_differ [OF h, of "empty_world :: string world"] by simp
qed

end
